theory Spec2Isabelle
  imports Main "HOL-Library.Word" "HOL-Library.Char_ord"
begin

section \<open>Runtime values\<close>

type_synonym byte = "8 word"

text \<open>
  A Go run-time panic. The only ones the modelled code can raise are the bounds checks of
  an index expression \<open>s[i]\<close> and of a slice expression \<open>s[lo:hi]\<close>.
\<close>

datatype panic = IndexOutOfRange | SliceOutOfRange

text \<open>\<open>s[i]\<close>: the element when \<open>i\<close> is in range, a panic otherwise.\<close>

definition index :: "'a list \<Rightarrow> nat \<Rightarrow> panic + 'a" where
  "index s i = (if i < length s then Inr (s ! i) else Inl IndexOutOfRange)"

text \<open>
  \<open>s[lo:hi]\<close>; \<open>s[lo:]\<close> is \<open>slice s lo (length s)\<close> and \<open>s[:hi]\<close> is
  \<open>slice s 0 hi\<close>. For a string and for a slice taken up to its length the bounds are
  \<open>lo \<le> hi \<le> len(s)\<close>.
\<close>

definition slice :: "'a list \<Rightarrow> nat \<Rightarrow> nat \<Rightarrow> panic + 'a list" where
  "slice s lo hi =
     (if lo \<le> hi \<and> hi \<le> length s then Inr (take (hi - lo) (drop lo s))
      else Inl SliceOutOfRange)"

text \<open>
  Go's \<open>error\<close> values as the program builds them: the \<open>*net.AddrError\<close> of
  \<open>net.ParseMAC\<close>, and the text of a \<open>fmt.Errorf\<close>. An error handed back by the
  IPMI library is known to the program only through its text (it is formatted with
  \<open>%v\<close>), so the library's errors are strings.
\<close>

datatype error = AddrError (Err: string) (Addr: string) | Errorf string

section \<open>The magic packet validator (main.go, isValidWOLPacket)\<close>

text \<open>
  The first loop, \<open>for i := 0; i < 6; i++\<close>. The result \<open>Inr False\<close> is the
  \<open>return false\<close> inside the loop, \<open>Inr True\<close> is the loop running to its end.
\<close>

function sync_loop :: "byte list \<Rightarrow> nat \<Rightarrow> panic + bool" where
  "sync_loop data i =
     (if i < 6 then
        (case index data i of
           Inl p \<Rightarrow> Inl p
         | Inr d \<Rightarrow> if d \<noteq> 0xFF then Inr False else sync_loop data (i + 1))
      else Inr True)"
  by pat_completeness auto
termination
  by (relation "measure (\<lambda>(data, i). 6 - i)") auto

text \<open>The inner loop of the second check, \<open>for j := 0; j < 6; j++\<close>, at a fixed \<open>i\<close>.\<close>

function mac_loop :: "byte list \<Rightarrow> byte list \<Rightarrow> nat \<Rightarrow> nat \<Rightarrow> panic + bool" where
  "mac_loop data targetMAC i j =
     (if j < 6 then
        (case index data (6 + i * 6 + j) of
           Inl p \<Rightarrow> Inl p
         | Inr d \<Rightarrow>
             (case index targetMAC j of
                Inl p \<Rightarrow> Inl p
              | Inr t \<Rightarrow> if d \<noteq> t then Inr False else mac_loop data targetMAC i (j + 1)))
      else Inr True)"
  by pat_completeness auto
termination
  by (relation "measure (\<lambda>(data, targetMAC, i, j). 6 - j)") auto

text \<open>The outer loop, \<open>for i := 0; i < 16; i++\<close>.\<close>

function rep_loop :: "byte list \<Rightarrow> byte list \<Rightarrow> nat \<Rightarrow> panic + bool" where
  "rep_loop data targetMAC i =
     (if i < 16 then
        (case mac_loop data targetMAC i 0 of
           Inl p \<Rightarrow> Inl p
         | Inr ok \<Rightarrow> if \<not> ok then Inr False else rep_loop data targetMAC (i + 1))
      else Inr True)"
  by pat_completeness auto
termination
  by (relation "measure (\<lambda>(data, targetMAC, i). 16 - i)") auto

definition isValidWOLPacket :: "byte list \<Rightarrow> byte list \<Rightarrow> panic + bool" where
  "isValidWOLPacket data targetMAC =
     (if length data \<noteq> 102 then Inr False
      else
        (case sync_loop data 0 of
           Inl p \<Rightarrow> Inl p
         | Inr ok \<Rightarrow>
             if \<not> ok then Inr False
             else
               (case rep_loop data targetMAC 0 of
                  Inl p \<Rightarrow> Inl p
                | Inr ok' \<Rightarrow> if \<not> ok' then Inr False else Inr True)))"

text \<open>
  The datagram the claims speak of: six bytes \<open>0xFF\<close>, then sixteen copies of the address.
\<close>

definition magic_packet :: "byte list \<Rightarrow> byte list" where
  "magic_packet m = replicate 6 0xFF @ concat (replicate 16 m)"

section \<open>The address parser (main.go, parseMAC)\<close>

text \<open>
  \<open>parseMAC\<close> rewrites every hyphen to a colon and hands the text to \<open>net.ParseMAC\<close>
  of Go's standard library. The repository neither contains that function nor fixes the
  Go release it is built with, and the releases do not agree on every text. They agree on
  text written with separators, the forms \<open>00:00:5e:00:53:01\<close>,
  \<open>00-00-5e-00-53-01\<close> and \<open>0000.5e00.5301\<close> of 6, 8 or 20 octets: for it the
  function is transcribed from the standard library (\<open>net/mac.go\<close>, with \<open>xtoi\<close>
  and \<open>xtoi2\<close> of \<open>net/parse.go\<close>), statement by statement. For text that has no
  separator where these forms have their first one, older releases return the error and
  newer ones also read plain hexadecimal digits: what the library does with such text is a
  parameter of the model. A Go string is a sequence of bytes, here a \<open>char list\<close>; the
  \<open>int\<close> accumulator of \<open>xtoi\<close> stays below \<open>16 * big\<close>, so it is a \<open>nat\<close>.
\<close>

definition big :: nat where
  "big = 0xFFFFFF"

text \<open>
  The loop of \<open>xtoi\<close> from index \<open>i\<close> with accumulator \<open>n\<close>, together with the
  statements after it. The result is \<open>(n, i, ok)\<close>.
\<close>

function xtoi_loop :: "string \<Rightarrow> nat \<Rightarrow> nat \<Rightarrow> nat \<times> nat \<times> bool" where
  "xtoi_loop s n i =
     (if i < length s then
        (if CHR ''0'' \<le> s ! i \<and> s ! i \<le> CHR ''9'' then
           (let n' = n * 16 + (of_char (s ! i) - of_char CHR ''0'')
            in if n' \<ge> big then (0, i, False) else xtoi_loop s n' (i + 1))
         else if CHR ''a'' \<le> s ! i \<and> s ! i \<le> CHR ''f'' then
           (let n' = n * 16 + (of_char (s ! i) - of_char CHR ''a'') + 10
            in if n' \<ge> big then (0, i, False) else xtoi_loop s n' (i + 1))
         else if CHR ''A'' \<le> s ! i \<and> s ! i \<le> CHR ''F'' then
           (let n' = n * 16 + (of_char (s ! i) - of_char CHR ''A'') + 10
            in if n' \<ge> big then (0, i, False) else xtoi_loop s n' (i + 1))
         else (if i = 0 then (0, i, False) else (n, i, True)))
      else (if i = 0 then (0, i, False) else (n, i, True)))"
  by pat_completeness auto
termination
  by (relation "measure (\<lambda>(s, n, i). length s - i)") auto

definition xtoi :: "string \<Rightarrow> nat \<times> nat \<times> bool" where
  "xtoi s = xtoi_loop s 0 0"

text \<open>
  \<open>xtoi2\<close> converts the next two hex digits of \<open>s\<close> into a byte; when \<open>s\<close> is longer
  than two bytes, the third byte must be \<open>e\<close>. \<open>byte(n)\<close> keeps the low eight bits.
\<close>

definition xtoi2 :: "string \<Rightarrow> char \<Rightarrow> panic + (byte \<times> bool)" where
  "xtoi2 s e =
     (if length s > 2 \<and> s ! 2 \<noteq> e then Inr (0, False)
      else
        (case slice s 0 2 of
           Inl p \<Rightarrow> Inl p
         | Inr s2 \<Rightarrow> (case xtoi s2 of (n, ei, ok) \<Rightarrow> Inr (of_nat n, ok \<and> ei = 2))))"

text \<open>
  The loop of the colon (or hyphen) form, \<open>for x, i := 0, 0; i < n; i++\<close>. The result
  \<open>Inr None\<close> is the \<open>goto error\<close>, \<open>Inr (Some hw)\<close> the loop running to its end.
\<close>

function colon_loop ::
  "string \<Rightarrow> nat \<Rightarrow> nat \<Rightarrow> nat \<Rightarrow> byte list \<Rightarrow> panic + byte list option" where
  "colon_loop s n x i hw =
     (if i < n then
        (case slice s x (length s) of
           Inl p \<Rightarrow> Inl p
         | Inr sx \<Rightarrow>
             (case index s 2 of
                Inl p \<Rightarrow> Inl p
              | Inr e \<Rightarrow>
                  (case xtoi2 sx e of
                     Inl p \<Rightarrow> Inl p
                   | Inr (b, ok) \<Rightarrow>
                       if \<not> i < length hw then Inl IndexOutOfRange
                       else if \<not> ok then Inr None
                       else colon_loop s n (x + 3) (i + 1) (hw[i := b]))))
      else Inr (Some hw))"
  by pat_completeness auto
termination
  by (relation "measure (\<lambda>(s, n, x, i, hw). n - i)") auto

text \<open>The loop of the dotted form, \<open>for x, i := 0, 0; i < n; i += 2\<close>.\<close>

function dot_loop ::
  "string \<Rightarrow> nat \<Rightarrow> nat \<Rightarrow> nat \<Rightarrow> byte list \<Rightarrow> panic + byte list option" where
  "dot_loop s n x i hw =
     (if i < n then
        (case slice s x (x + 2) of
           Inl p \<Rightarrow> Inl p
         | Inr s1 \<Rightarrow>
             (case xtoi2 s1 (CHR 0x00) of
                Inl p \<Rightarrow> Inl p
              | Inr (b1, ok1) \<Rightarrow>
                  if \<not> i < length hw then Inl IndexOutOfRange
                  else if \<not> ok1 then Inr None
                  else
                    (case slice s (x + 2) (length s) of
                       Inl p \<Rightarrow> Inl p
                     | Inr s2 \<Rightarrow>
                         (case index s 4 of
                            Inl p \<Rightarrow> Inl p
                          | Inr e \<Rightarrow>
                              (case xtoi2 s2 e of
                                 Inl p \<Rightarrow> Inl p
                               | Inr (b2, ok2) \<Rightarrow>
                                   if \<not> i + 1 < length hw then Inl IndexOutOfRange
                                   else if \<not> ok2 then Inr None
                                   else dot_loop s n (x + 5) (i + 2)
                                          (hw[i := b1, i + 1 := b2]))))))
      else Inr (Some hw))"
  by pat_completeness auto
termination
  by (relation "measure (\<lambda>(s, n, x, i, hw). n - i)") auto

text \<open>The value returned at the label \<open>error\<close>.\<close>

definition invalid_MAC :: "string \<Rightarrow> error" where
  "invalid_MAC s = AddrError ''invalid MAC address'' s"

text \<open>
  \<open>net.ParseMAC\<close> as the standard library has it for the forms with separators; every
  other text ends at the label \<open>error\<close>.
\<close>

definition ParseMAC_separated :: "string \<Rightarrow> panic + (error + byte list)" where
  "ParseMAC_separated s =
     (if length s < 14 then Inr (Inl (invalid_MAC s))
      else
        (case index s 2 of
           Inl p \<Rightarrow> Inl p
         | Inr c2 \<Rightarrow>
             if c2 = CHR '':'' \<or> c2 = CHR ''-'' then
               (if (length s + 1) mod 3 \<noteq> 0 then Inr (Inl (invalid_MAC s))
                else
                  (let n = (length s + 1) div 3
                   in if n \<noteq> 6 \<and> n \<noteq> 8 \<and> n \<noteq> 20 then Inr (Inl (invalid_MAC s))
                      else
                        (case colon_loop s n 0 0 (replicate n 0) of
                           Inl p \<Rightarrow> Inl p
                         | Inr None \<Rightarrow> Inr (Inl (invalid_MAC s))
                         | Inr (Some hw) \<Rightarrow> Inr (Inr hw))))
             else
               (case index s 4 of
                  Inl p \<Rightarrow> Inl p
                | Inr c4 \<Rightarrow>
                    if c4 = CHR ''.'' then
                      (if (length s + 1) mod 5 \<noteq> 0 then Inr (Inl (invalid_MAC s))
                       else
                         (let n = 2 * (length s + 1) div 5
                          in if n \<noteq> 6 \<and> n \<noteq> 8 \<and> n \<noteq> 20 then Inr (Inl (invalid_MAC s))
                             else
                               (case dot_loop s n 0 0 (replicate n 0) of
                                  Inl p \<Rightarrow> Inl p
                                | Inr None \<Rightarrow> Inr (Inl (invalid_MAC s))
                                | Inr (Some hw) \<Rightarrow> Inr (Inr hw))))
                    else Inr (Inl (invalid_MAC s)))))"

text \<open>
  \<open>strings.ReplaceAll\<close> at the one-byte pattern and one-byte replacement of the call in
  \<open>parseMAC\<close>: every occurrence of \<open>old\<close> becomes \<open>new\<close>.
\<close>

definition ReplaceAll :: "string \<Rightarrow> char \<Rightarrow> char \<Rightarrow> string" where
  "ReplaceAll s old new = map (\<lambda>c. if c = old then new else c) s"

text \<open>
  The text has a separator where the three forms have their first one: \<open>:\<close> or \<open>-\<close>
  as its third byte, or \<open>.\<close> as its fifth.
\<close>

definition has_separator :: "string \<Rightarrow> bool" where
  "has_separator s =
     ((2 < length s \<and> (s ! 2 = CHR '':'' \<or> s ! 2 = CHR ''-'')) \<or>
      (4 < length s \<and> s ! 4 = CHR ''.''))"

text \<open>
  \<open>net.ParseMAC\<close>: the transcription on text with a separator, and the library's
  answer \<open>unseparated\<close>, an error or an address, on any other text.
\<close>

definition ParseMAC ::
  "(string \<Rightarrow> error + byte list) \<Rightarrow> string \<Rightarrow> panic + (error + byte list)" where
  "ParseMAC unseparated s =
     (if has_separator s then ParseMAC_separated s else Inr (unseparated s))"

text \<open>The answer of the older releases to text without a separator: the error.\<close>

definition reject_unseparated :: "string \<Rightarrow> error + byte list" where
  "reject_unseparated s = Inl (invalid_MAC s)"

definition parseMAC ::
  "(string \<Rightarrow> error + byte list) \<Rightarrow> string \<Rightarrow> panic + (error + byte list)" where
  "parseMAC unseparated macStr =
     (let macStr = ReplaceAll macStr (CHR ''-'') (CHR '':'')
      in case ParseMAC unseparated macStr of
           Inl p \<Rightarrow> Inl p
         | Inr (Inl err) \<Rightarrow> Inr (Inl err)
         | Inr (Inr hwAddr) \<Rightarrow> Inr (Inr hwAddr))"

text \<open>
  A text laid out as \<open>k\<close> octets of two bytes each, with \<open>:\<close> or \<open>-\<close> between
  neighbours: \<open>00:11:22\<close> is one of three octets.
\<close>

definition separated_octets :: "nat \<Rightarrow> string \<Rightarrow> bool" where
  "separated_octets k s =
     (length s + 1 = 3 * k \<and>
      list_all (\<lambda>i. s ! (3 * i + 2) = CHR '':'' \<or> s ! (3 * i + 2) = CHR ''-'') [0..<k - 1])"

section \<open>The power orchestrator (main.go, sendIPMIPowerOn)\<close>

text \<open>
  The controller is reached through the \<open>go-ipmi\<close> client, an external library. The
  program uses four of its operations, each of which may change the controller's state
  \<open>'s\<close> and may fail: \<open>Connect\<close> and \<open>ChassisControl\<close> return an error or nil,
  \<open>GetChassisStatus\<close> an error or the flag \<open>PowerIsOn\<close>, and the error of
  \<open>Close\<close> is dropped by the program. A client is any four such functions, so a
  statement about every client is a statement about every controller. The deadline of the
  context is not modelled: an operation that runs out of time is one that returns an error.
\<close>

datatype chassis_control =
    ChassisControlPowerDown
  | ChassisControlPowerUp
  | ChassisControlPowerCycle
  | ChassisControlHardReset
  | ChassisControlDiagnosticInterrupt
  | ChassisControlSoftShutdown

record 's client =
  Connect :: "'s \<Rightarrow> string option \<times> 's"
  GetChassisStatus :: "'s \<Rightarrow> (string + bool) \<times> 's"
  ChassisControl :: "chassis_control \<Rightarrow> 's \<Rightarrow> string option \<times> 's"
  Close :: "'s \<Rightarrow> 's"

text \<open>
  What one call of \<open>sendIPMIPowerOn\<close> does: the calls it makes on the client, in order
  (\<open>Call_Connect\<close> carries whether the session was established), the lines it prints,
  the controller's state at the end, and the error it returns (\<open>None\<close> is nil).
\<close>

datatype call =
    Call_Connect bool
  | Call_GetChassisStatus
  | Call_ChassisControl chassis_control
  | Call_Close

record 's run =
  ret :: "error option"
  bmc :: "'s"
  calls :: "call list"
  stdout :: "string list"

text \<open>
  The statements of \<open>sendIPMIPowerOn\<close> that follow \<open>defer client.Close(ctx)\<close> and the
  first \<open>Printf\<close>: the status query, the test of \<open>PowerIsOn\<close> and the command.
\<close>

definition sendIPMIPowerOn_session :: "'s client \<Rightarrow> 's \<Rightarrow> 's run" where
  "sendIPMIPowerOn_session client s1 =
     (case GetChassisStatus client s1 of
        (Inl err, s2) \<Rightarrow>
          \<lparr>ret = Some (Errorf (''failed to get chassis status: '' @ err)), bmc = s2,
           calls = [Call_GetChassisStatus], stdout = []\<rparr>
      | (Inr PowerIsOn, s2) \<Rightarrow>
          if PowerIsOn then
            \<lparr>ret = None, bmc = s2, calls = [Call_GetChassisStatus],
             stdout = [''The server is already powered ON. No action taken.'']\<rparr>
          else
            (case ChassisControl client ChassisControlPowerUp s2 of
               (Some err, s3) \<Rightarrow>
                 \<lparr>ret = Some (Errorf (''failed to send Power Up command: '' @ err)), bmc = s3,
                  calls = [Call_GetChassisStatus, Call_ChassisControl ChassisControlPowerUp],
                  stdout = [''Server is currently OFF. Sending Power Up command...'']\<rparr>
             | (None, s3) \<Rightarrow>
                 \<lparr>ret = None, bmc = s3,
                  calls = [Call_GetChassisStatus, Call_ChassisControl ChassisControlPowerUp],
                  stdout = [''Server is currently OFF. Sending Power Up command...'',
                            ''Success: Power On command sent.'']\<rparr>))"

text \<open>The deferred \<open>client.Close(ctx)\<close>: it runs when the function returns, whatever the path.\<close>

definition defer_Close :: "'s client \<Rightarrow> 's run \<Rightarrow> 's run" where
  "defer_Close client r = r\<lparr>bmc := Close client (bmc r), calls := calls r @ [Call_Close]\<rparr>"

text \<open>
  \<open>NewClient\<close> builds the client or fails. The two setters
  (\<open>WithMaxPrivilegeLevel\<close>, \<open>WithInterface\<close>) only configure the client and are left out.
\<close>

definition sendIPMIPowerOn ::
  "(string \<Rightarrow> int \<Rightarrow> string \<Rightarrow> string \<Rightarrow> string + 's client) \<Rightarrow>
   string \<Rightarrow> string \<Rightarrow> string \<Rightarrow> int \<Rightarrow> 's \<Rightarrow> 's run" where
  "sendIPMIPowerOn NewClient host username password port s =
     (case NewClient host port username password of
        Inl err \<Rightarrow>
          \<lparr>ret = Some (Errorf (''failed to create IPMI client: '' @ err)), bmc = s,
           calls = [], stdout = []\<rparr>
      | Inr client \<Rightarrow>
          (case Connect client s of
             (Some err, s1) \<Rightarrow>
               \<lparr>ret = Some (Errorf (''failed to establish session: '' @ err)), bmc = s1,
                calls = [Call_Connect False], stdout = []\<rparr>
           | (None, s1) \<Rightarrow>
               (let r = sendIPMIPowerOn_session client s1
                in defer_Close client
                     (r\<lparr>calls := Call_Connect True # calls r,
                        stdout := (''Connected to BMC at '' @ host) # stdout r\<rparr>))))"

text \<open>The number of power-on commands among the calls made.\<close>

definition power_on_commands :: "call list \<Rightarrow> nat" where
  "power_on_commands cs = count_list cs (Call_ChassisControl ChassisControlPowerUp)"

text \<open>
  Whether a session is open after a sequence of calls, given whether one was open before:
  a successful \<open>Connect\<close> opens it, \<open>Close\<close> releases it.
\<close>

fun session_after :: "bool \<Rightarrow> call list \<Rightarrow> bool" where
  "session_after opened [] = opened"
| "session_after opened (Call_Connect ok # cs) = session_after (if ok then True else opened) cs"
| "session_after opened (Call_Close # cs) = session_after False cs"
| "session_after opened (c # cs) = session_after opened cs"

text \<open>
  A simulated controller, to run the orchestrator on: it can be reached or not, accepts
  commands or rejects them, and is powered or not.
\<close>

record sim =
  reachable :: bool
  accepts :: bool
  powered :: bool
  in_session :: bool

definition sim_client :: "sim client" where
  "sim_client =
     \<lparr>Connect = (\<lambda>s. if reachable s then (None, s\<lparr>in_session := True\<rparr>)
                      else (Some ''i/o timeout'', s)),
      GetChassisStatus = (\<lambda>s. (Inr (powered s), s)),
      ChassisControl = (\<lambda>c s. if accepts s
                               then (None, if c = ChassisControlPowerUp then s\<lparr>powered := True\<rparr> else s)
                               else (Some ''command rejected'', s)),
      Close = (\<lambda>s. s\<lparr>in_session := False\<rparr>)\<rparr>"

definition sim_bmc :: "bool \<Rightarrow> bool \<Rightarrow> bool \<Rightarrow> sim" where
  "sim_bmc r a p = \<lparr>reachable = r, accepts = a, powered = p, in_session = False\<rparr>"

definition sim_NewClient :: "string \<Rightarrow> int \<Rightarrow> string \<Rightarrow> string \<Rightarrow> string + sim client" where
  "sim_NewClient host port username password = Inr sim_client"

section \<open>The UDP receive loop (main.go, main)\<close>

text \<open>
  A successful \<open>conn.ReadFromUDP(buffer)\<close> of the datagram \<open>d\<close>: the datagram is copied
  to the front of the buffer, cut to the buffer's size, and the rest of the buffer keeps
  what earlier reads left there. The result is the count \<open>n\<close> and the buffer.
\<close>

definition ReadFromUDP :: "byte list \<Rightarrow> byte list \<Rightarrow> nat \<times> byte list" where
  "ReadFromUDP buffer d =
     (let n = min (length d) (length buffer) in (n, take n d @ drop n buffer))"




section \<open>Configuration (main.go, main and getEnvOrDefault)\<close>

text \<open>
  The environment maps a name to its value. The command line, once \<open>flag.Parse\<close> has
  read it, maps the name of each flag that was given to its value; a string flag that was
  not given holds the default it was declared with.
\<close>

type_synonym environ = "string \<rightharpoonup> string"
type_synonym command_line = "string \<rightharpoonup> string"

definition Getenv :: "environ \<Rightarrow> string \<Rightarrow> string" where
  "Getenv env key = (case env key of None \<Rightarrow> [] | Some v \<Rightarrow> v)"

definition getEnvOrDefault :: "environ \<Rightarrow> string \<Rightarrow> string \<Rightarrow> string" where
  "getEnvOrDefault env key defaultValue =
     (let value = Getenv env key in if value \<noteq> [] then value else defaultValue)"

definition flag_String :: "command_line \<Rightarrow> string \<Rightarrow> string \<Rightarrow> string" where
  "flag_String args name value = (case args name of None \<Rightarrow> value | Some v \<Rightarrow> v)"

record config =
  finalHost :: string
  finalUsername :: string
  finalPassword :: string
  finalMAC :: string

text \<open>The values \<open>main\<close> settles on before it parses the address.\<close>

definition main_config :: "command_line \<Rightarrow> environ \<Rightarrow> config" where
  "main_config args env =
     (let host = flag_String args ''host'' [];
          username = flag_String args ''username'' [];
          password = flag_String args ''password'' [];
          mac = flag_String args ''mac'' ''00:11:22:33:44:55'';
          envMAC = getEnvOrDefault env ''WOL_MAC'' []
      in \<lparr>finalHost =
            (if host = [] then getEnvOrDefault env ''IPMI_HOST'' ''192.168.0.1'' else host),
          finalUsername =
            (if username = [] then getEnvOrDefault env ''IPMI_USERNAME'' ''admin'' else username),
          finalPassword =
            (if password = [] then getEnvOrDefault env ''IPMI_PASSWORD'' ''admin'' else password),
          finalMAC = (if envMAC \<noteq> [] then envMAC else mac)\<rparr>)"

section \<open>Properties of the validator\<close>

declare sync_loop.simps [simp del] mac_loop.simps [simp del] rep_loop.simps [simp del]
declare xtoi_loop.simps [simp del] colon_loop.simps [simp del] dot_loop.simps [simp del]




lemma all_from_Suc:
  fixes i :: nat
  assumes "P i"
  shows "(\<forall>k. i + 1 \<le> k \<and> k < n \<longrightarrow> P k) = (\<forall>k. i \<le> k \<and> k < n \<longrightarrow> P k)"
proof
  assume h: "\<forall>k. i + 1 \<le> k \<and> k < n \<longrightarrow> P k"
  show "\<forall>k. i \<le> k \<and> k < n \<longrightarrow> P k"
  proof (intro allI impI)
    fix k assume "i \<le> k \<and> k < n"
    then show "P k" using h assms by (cases "k = i") auto
  qed
next
  assume "\<forall>k. i \<le> k \<and> k < n \<longrightarrow> P k"
  then show "\<forall>k. i + 1 \<le> k \<and> k < n \<longrightarrow> P k" by auto
qed




lemma sync_loop_char:
  "6 \<le> length data \<Longrightarrow>
   sync_loop data i = Inr (\<forall>k. i \<le> k \<and> k < 6 \<longrightarrow> data ! k = 0xFF)"
proof (induction data i rule: sync_loop.induct)
  case (1 data i)
  show ?case
  proof (cases "i < 6")
    case False
    then show ?thesis by (subst sync_loop.simps) auto
  next
    case True
    with "1.prems" have ix: "index data i = Inr (data ! i)" by (simp add: index_def)
    show ?thesis
    proof (cases "data ! i = 0xFF")
      case False
      with True ix show ?thesis by (subst sync_loop.simps) auto
    next
      case eq: True
      have "sync_loop data i = sync_loop data (i + 1)"
        using True ix eq by (subst sync_loop.simps) simp
      also have "\<dots> = Inr (\<forall>k. i + 1 \<le> k \<and> k < 6 \<longrightarrow> data ! k = 0xFF)"
        using "1.IH" [OF True ix _ "1.prems"] eq by simp
      also have "(\<forall>k. i + 1 \<le> k \<and> k < 6 \<longrightarrow> data ! k = 0xFF) =
                 (\<forall>k. i \<le> k \<and> k < 6 \<longrightarrow> data ! k = 0xFF)"
        using eq by (intro all_from_Suc)
      finally show ?thesis .
    qed
  qed
qed

lemma mac_loop_char:
  "6 + i * 6 + 6 \<le> length data \<Longrightarrow> 6 \<le> length t \<Longrightarrow>
   mac_loop data t i j = Inr (\<forall>k. j \<le> k \<and> k < 6 \<longrightarrow> data ! (6 + i * 6 + k) = t ! k)"
proof (induction data t i j rule: mac_loop.induct)
  case (1 data t i j)
  show ?case
  proof (cases "j < 6")
    case False
    then show ?thesis by (subst mac_loop.simps) auto
  next
    case True
    with "1.prems" have ix: "index data (6 + i * 6 + j) = Inr (data ! (6 + i * 6 + j))"
      and it: "index t j = Inr (t ! j)" by (simp_all add: index_def)
    show ?thesis
    proof (cases "data ! (6 + i * 6 + j) = t ! j")
      case False
      with True ix it show ?thesis by (subst mac_loop.simps) auto
    next
      case eq: True
      have "mac_loop data t i j = mac_loop data t i (j + 1)"
        using True ix it eq by (subst mac_loop.simps) simp
      also have "\<dots> = Inr (\<forall>k. j + 1 \<le> k \<and> k < 6 \<longrightarrow> data ! (6 + i * 6 + k) = t ! k)"
        using "1.IH" [OF True ix it _ "1.prems"] eq by simp
      also have "(\<forall>k. j + 1 \<le> k \<and> k < 6 \<longrightarrow> data ! (6 + i * 6 + k) = t ! k) =
                 (\<forall>k. j \<le> k \<and> k < 6 \<longrightarrow> data ! (6 + i * 6 + k) = t ! k)"
        using eq by (intro all_from_Suc)
      finally show ?thesis .
    qed
  qed
qed

lemma rep_loop_char:
  "length data = 102 \<Longrightarrow> 6 \<le> length t \<Longrightarrow>
   rep_loop data t i =
     Inr (\<forall>q. i \<le> q \<and> q < 16 \<longrightarrow> (\<forall>k<6. data ! (6 + q * 6 + k) = t ! k))"
proof (induction data t i rule: rep_loop.induct)
  case (1 data t i)
  show ?case
  proof (cases "i < 16")
    case False
    then show ?thesis by (subst rep_loop.simps) auto
  next
    case True
    with "1.prems" have inner:
      "mac_loop data t i 0 = Inr (\<forall>k<6. data ! (6 + i * 6 + k) = t ! k)"
      by (subst mac_loop_char) simp_all
    show ?thesis
    proof (cases "\<forall>k<6. data ! (6 + i * 6 + k) = t ! k")
      case False
      with True inner show ?thesis by (subst rep_loop.simps) auto
    next
      case eq: True
      have "rep_loop data t i = rep_loop data t (i + 1)"
        using True inner eq by (subst rep_loop.simps) simp
      also have "\<dots> = Inr (\<forall>q. i + 1 \<le> q \<and> q < 16 \<longrightarrow> (\<forall>k<6. data ! (6 + q * 6 + k) = t ! k))"
        using "1.IH" [OF True inner _ "1.prems"] eq by simp
      also have "(\<forall>q. i + 1 \<le> q \<and> q < 16 \<longrightarrow> (\<forall>k<6. data ! (6 + q * 6 + k) = t ! k)) =
                 (\<forall>q. i \<le> q \<and> q < 16 \<longrightarrow> (\<forall>k<6. data ! (6 + q * 6 + k) = t ! k))"
        using eq by (intro all_from_Suc)
      finally show ?thesis .
    qed
  qed
qed

lemma isValidWOLPacket_char:
  assumes "6 \<le> length t"
  shows "isValidWOLPacket data t =
     Inr (length data = 102 \<and> (\<forall>k<6. data ! k = 0xFF) \<and>
          (\<forall>q<16. \<forall>k<6. data ! (6 + q * 6 + k) = t ! k))"
proof (cases "length data = 102")
  case False
  then show ?thesis by (simp add: isValidWOLPacket_def)
next
  case True
  then have s: "sync_loop data 0 = Inr (\<forall>k<6. data ! k = 0xFF)"
    by (subst sync_loop_char) simp_all
  have r: "rep_loop data t 0 = Inr (\<forall>q<16. \<forall>k<6. data ! (6 + q * 6 + k) = t ! k)"
    using True assms by (subst rep_loop_char) simp_all
  show ?thesis using True by (simp add: isValidWOLPacket_def s r)
qed

lemma length_concat_replicate: "length (concat (replicate c m)) = c * length m"
  by (induction c) simp_all

lemma concat_replicate_nth:
  "j < length m \<Longrightarrow> q < c \<Longrightarrow> concat (replicate c m) ! (q * length m + j) = m ! j"
proof (induction c arbitrary: q)
  case 0
  then show ?case by simp
next
  case (Suc c)
  show ?case
  proof (cases q)
    case 0
    with Suc.prems show ?thesis by (simp add: nth_append)
  next
    case (Suc q')
    with Suc.prems have "q' < c" by simp
    from Suc.IH [OF Suc.prems(1) this] Suc show ?thesis by (simp add: nth_append)
  qed
qed

lemma length_magic_packet: "length m = 6 \<Longrightarrow> length (magic_packet m) = 102"
  by (simp add: magic_packet_def length_concat_replicate)

lemma magic_packet_sync: "k < 6 \<Longrightarrow> magic_packet m ! k = 0xFF"
  by (simp add: magic_packet_def nth_append)

lemma magic_packet_rep:
  assumes "length m = 6" "q < 16" "k < 6"
  shows "magic_packet m ! (6 + q * 6 + k) = m ! k"
proof -
  have "magic_packet m ! (6 + q * 6 + k) = concat (replicate 16 m) ! (q * length m + k)"
    using assms by (simp add: magic_packet_def nth_append)
  also have "\<dots> = m ! k"
    using assms by (intro concat_replicate_nth) simp_all
  finally show ?thesis .
qed

lemma magic_packet_unique:
  assumes len: "length m = 6" and l: "length data = 102"
    and s: "\<forall>k<6. data ! k = 0xFF"
    and r: "\<forall>q<16. \<forall>k<6. data ! (6 + q * 6 + k) = m ! k"
  shows "data = magic_packet m"
proof (rule nth_equalityI)
  show "length data = length (magic_packet m)"
    using l len by (simp add: length_magic_packet)
next
  fix i assume "i < length data"
  with l have i: "i < 102" by simp
  show "data ! i = magic_packet m ! i"
  proof (cases "i < 6")
    case True
    with s show ?thesis by (simp add: magic_packet_sync)
  next
    case False
    define q where "q = (i - 6) div 6"
    define k where "k = (i - 6) mod 6"
    have qk: "q < 16" "k < 6" and eq: "i = 6 + q * 6 + k"
      using i False by (auto simp: q_def k_def)
    from r qk have "data ! (6 + q * 6 + k) = m ! k" by blast
    also have "\<dots> = magic_packet m ! (6 + q * 6 + k)"
      using len qk by (simp add: magic_packet_rep)
    finally show ?thesis by (simp add: eq)
  qed
qed

lemma isValidWOLPacket_magic:
  assumes "6 \<le> length t"
  shows "isValidWOLPacket data t = Inr (data = magic_packet (take 6 t))"
proof -
  have len: "length (take 6 t) = 6" using assms by simp
  have "(length data = 102 \<and> (\<forall>k<6. data ! k = 0xFF) \<and>
          (\<forall>q<16. \<forall>k<6. data ! (6 + q * 6 + k) = t ! k)) = (data = magic_packet (take 6 t))"
    (is "?L = ?R")
  proof
    assume ?L
    then show ?R by (intro magic_packet_unique [OF len]) simp_all
  next
    assume ?R
    then show ?L
      using len by (simp add: length_magic_packet magic_packet_sync magic_packet_rep)
  qed
  then show ?thesis by (simp add: isValidWOLPacket_char [OF assms])
qed

lemma magic_packet_inj:
  assumes "length m = 6" "length m' = 6" "magic_packet m = magic_packet m'"
  shows "m = m'"
proof (rule nth_equalityI)
  show "length m = length m'" using assms by simp
next
  fix k assume "k < length m"
  with assms have k: "k < 6" by simp
  have "m ! k = magic_packet m ! (6 + 0 * 6 + k)"
    using assms(1) k by (subst magic_packet_rep) simp_all
  also have "\<dots> = m' ! k"
    unfolding assms(3) using assms(2) k by (subst magic_packet_rep) simp_all
  finally show "m ! k = m' ! k" .
qed

section \<open>Properties of the address parser\<close>

lemma xtoi2_returns: "2 \<le> length s \<Longrightarrow> \<exists>r. xtoi2 s e = Inr r"
  by (auto simp: xtoi2_def slice_def split: prod.splits)

lemma colon_loop_length:
  "colon_loop s n x i hw = Inr (Some hw') \<Longrightarrow> length hw' = length hw"
proof (induction s n x i hw rule: colon_loop.induct)
  case (1 s n x i hw)
  from "1.prems" show ?case
    apply (subst (asm) colon_loop.simps)
    using "1.IH"
    apply (auto split: if_splits sum.splits prod.splits)
    done
qed

lemma dot_loop_length:
  "dot_loop s n x i hw = Inr (Some hw') \<Longrightarrow> length hw' = length hw"
proof (induction s n x i hw rule: dot_loop.induct)
  case (1 s n x i hw)
  from "1.prems" show ?case
    apply (subst (asm) dot_loop.simps)
    using "1.IH"
    apply (auto split: if_splits sum.splits prod.splits)
    done
qed

lemma colon_loop_returns:
  "length s + 1 = 3 * n \<Longrightarrow> x = 3 * i \<Longrightarrow> length hw = n \<Longrightarrow> 3 \<le> length s \<Longrightarrow>
   \<exists>r. colon_loop s n x i hw = Inr r"
proof (induction s n x i hw rule: colon_loop.induct)
  case (1 s n x i hw)
  show ?case
  proof (cases "i < n")
    case False
    then show ?thesis by (subst colon_loop.simps) simp
  next
    case True
    have sl: "slice s x (length s) = Inr (drop x s)"
      using True "1.prems" by (simp add: slice_def)
    have ix: "index s 2 = Inr (s ! 2)"
      using "1.prems" by (simp add: index_def)
    have "2 \<le> length (drop x s)" using True "1.prems" by simp
    from xtoi2_returns [OF this] obtain b ok where x2: "xtoi2 (drop x s) (s ! 2) = Inr (b, ok)"
      by (metis surj_pair)
    show ?thesis
    proof (cases ok)
      case False
      then show ?thesis using True sl ix x2 "1.prems" by (subst colon_loop.simps) simp
    next
      case ok: True
      have "\<exists>r. colon_loop s n (x + 3) (i + 1) (hw[i := b]) = Inr r"
        using "1.prems" True ok by (intro "1.IH" [OF True sl ix x2]) simp_all
      then show ?thesis using True sl ix x2 "1.prems" ok by (subst colon_loop.simps) simp
    qed
  qed
qed

lemma dot_loop_returns:
  "length s + 1 = 5 * k \<Longrightarrow> n = 2 * k \<Longrightarrow> x = 5 * j \<Longrightarrow> i = 2 * j \<Longrightarrow> length hw = n \<Longrightarrow>
   5 \<le> length s \<Longrightarrow> \<exists>r. dot_loop s n x i hw = Inr r"
proof (induction s n x i hw arbitrary: j rule: dot_loop.induct)
  case (1 s n x i hw)
  show ?case
  proof (cases "i < n")
    case False
    then show ?thesis by (subst dot_loop.simps) simp
  next
    case True
    with "1.prems" have jk: "j < k" by simp
    have sl1: "slice s x (x + 2) = Inr (take 2 (drop x s))"
      using jk "1.prems" by (simp add: slice_def)
    have "2 \<le> length (take 2 (drop x s))" using jk "1.prems" by simp
    from xtoi2_returns [OF this] obtain b1 ok1
      where x1: "xtoi2 (take 2 (drop x s)) (CHR 0x00) = Inr (b1, ok1)"
      by (metis surj_pair)
    have sl2: "slice s (x + 2) (length s) = Inr (drop (x + 2) s)"
      using jk "1.prems" by (simp add: slice_def)
    have ix: "index s 4 = Inr (s ! 4)"
      using "1.prems" by (simp add: index_def)
    have "2 \<le> length (drop (x + 2) s)" using jk "1.prems" by simp
    from xtoi2_returns [OF this] obtain b2 ok2
      where x2: "xtoi2 (drop (x + 2) s) (s ! 4) = Inr (b2, ok2)"
      by (metis surj_pair)
    have inb: "i < length hw" "i + 1 < length hw" using jk "1.prems" by simp_all
    show ?thesis
    proof (cases "ok1 \<and> ok2")
      case False
      then show ?thesis using True sl1 sl2 ix x1 x2 inb by (subst dot_loop.simps) auto
    next
      case ok: True
      have "\<exists>r. dot_loop s n (x + 5) (i + 2) (hw[i := b1, i + 1 := b2]) = Inr r"
        using "1.prems" True ok
        by (intro "1.IH" [OF True sl1 x1 _ _ _ sl2 ix x2, where j = "j + 1"]) (simp_all add: inb)
      then show ?thesis using True sl1 sl2 ix x1 x2 inb ok by (subst dot_loop.simps) simp
    qed
  qed
qed

lemma ParseMAC_separated_returns: "\<exists>r. ParseMAC_separated s = Inr r"
proof (cases "length s < 14")
  case True
  then show ?thesis by (simp add: ParseMAC_separated_def)
next
  case False
  then have i2: "index s 2 = Inr (s ! 2)" and i4: "index s 4 = Inr (s ! 4)"
    by (simp_all add: index_def)
  show ?thesis
  proof (cases "s ! 2 = CHR '':'' \<or> s ! 2 = CHR ''-''")
    case colon: True
    show ?thesis
    proof (cases "(length s + 1) mod 3 = 0")
      case m: True
      define n where "n = (length s + 1) div 3"
      have len: "length s + 1 = 3 * n" using m by (auto simp: n_def)
      have "\<exists>r. colon_loop s n 0 0 (replicate n 0) = Inr r"
        using len False by (intro colon_loop_returns) simp_all
      then show ?thesis
        using False i2 colon m
        by (auto simp: ParseMAC_separated_def n_def Let_def split: option.splits)
    next
      case False
      with \<open>\<not> length s < 14\<close> i2 colon show ?thesis by (simp add: ParseMAC_separated_def)
    qed
  next
    case nocolon: False
    show ?thesis
    proof (cases "s ! 4 = CHR ''.'' \<and> (length s + 1) mod 5 = 0")
      case dot: True
      define k where "k = (length s + 1) div 5"
      define n where "n = 2 * (length s + 1) div 5"
      have len: "length s + 1 = 5 * k" using dot by (auto simp: k_def)
      have n: "n = 2 * k" unfolding n_def len by simp
      have "\<exists>r. dot_loop s n 0 0 (replicate n 0) = Inr r"
        using len n False by (intro dot_loop_returns [where j = 0 and k = k]) simp_all
      then show ?thesis
        using False i2 i4 nocolon dot
        by (auto simp: ParseMAC_separated_def n_def Let_def split: option.splits)
    next
      case False
      with \<open>\<not> length s < 14\<close> i2 i4 nocolon show ?thesis by (auto simp: ParseMAC_separated_def)
    qed
  qed
qed

lemma ParseMAC_separated_length:
  assumes "ParseMAC_separated s = Inr (Inr hw)"
  shows "length hw = 6 \<or> length hw = 8 \<or> length hw = 20"
  using assms
  by (auto simp: ParseMAC_separated_def Let_def
      split: if_splits sum.splits option.splits
      dest!: colon_loop_length dot_loop_length)

lemma ParseMAC_returns: "\<exists>r. ParseMAC unseparated s = Inr r"
  using ParseMAC_separated_returns [of s] by (simp add: ParseMAC_def)

lemma ParseMAC_length:
  assumes "\<forall>t a. unseparated t = Inr a \<longrightarrow> length a = 6 \<or> length a = 8 \<or> length a = 20"
    and "ParseMAC unseparated s = Inr (Inr hw)"
  shows "length hw = 6 \<or> length hw = 8 \<or> length hw = 20"
proof (cases "has_separator s")
  case True
  with assms(2) show ?thesis by (simp add: ParseMAC_def ParseMAC_separated_length)
next
  case False
  with assms(2) have "unseparated s = Inr hw" by (simp add: ParseMAC_def)
  with assms(1) show ?thesis by blast
qed

lemma ParseMAC_separated_octets:
  assumes "length s + 1 = 3 * k" and "2 < length s" and "s ! 2 = CHR '':''"
    and "k \<noteq> 6" and "k \<noteq> 8" and "k \<noteq> 20"
  shows "ParseMAC unseparated s = Inr (Inl (invalid_MAC s))"
proof -
  have sep: "has_separator s" using assms(2,3) by (simp add: has_separator_def)
  have ix: "index s 2 = Inr CHR '':''" using assms(2,3) by (simp add: index_def)
  have m: "Suc (length s) mod 3 = 0" and d: "Suc (length s) div 3 = k"
    using assms(1) by simp_all
  have "ParseMAC_separated s = Inr (Inl (invalid_MAC s))"
    using assms(4-6) by (simp add: ParseMAC_separated_def ix m d Let_def)
  with sep show ?thesis by (simp add: ParseMAC_def)
qed

lemma separated_octets_normalised:
  assumes "separated_octets k macStr" and "2 \<le> k"
  shows "length (ReplaceAll macStr (CHR ''-'') (CHR '':'')) + 1 = 3 * k"
    and "2 < length (ReplaceAll macStr (CHR ''-'') (CHR '':''))"
    and "ReplaceAll macStr (CHR ''-'') (CHR '':'') ! 2 = CHR '':''"
proof -
  from assms have len: "length macStr + 1 = 3 * k" and two: "2 < length macStr"
    by (auto simp: separated_octets_def)
  from assms have "0 \<in> set [0..<k - 1]" by simp
  with assms(1)
  have "macStr ! (3 * 0 + 2) = CHR '':'' \<or> macStr ! (3 * 0 + 2) = CHR ''-''"
    unfolding separated_octets_def list_all_iff by blast
  then have c: "macStr ! 2 = CHR '':'' \<or> macStr ! 2 = CHR ''-''"
    by (simp add: numeral_2_eq_2)
  show "length (ReplaceAll macStr (CHR ''-'') (CHR '':'')) + 1 = 3 * k"
    using len by (simp add: ReplaceAll_def)
  show "2 < length (ReplaceAll macStr (CHR ''-'') (CHR '':''))"
    using two by (simp add: ReplaceAll_def)
  show "ReplaceAll macStr (CHR ''-'') (CHR '':'') ! 2 = CHR '':''"
    using two c by (auto simp: ReplaceAll_def)
qed

section \<open>Properties of the receive loop\<close>

text \<open>A read leaves the buffer as long as it was: 1024 bytes at every turn of the loop.\<close>

lemma ReadFromUDP_length: "length (snd (ReadFromUDP buffer d)) = length buffer"
  by (simp add: ReadFromUDP_def Let_def)



section \<open>Properties of the configuration\<close>

text \<open>
  For the host, the user name and the password a non-empty value given on the command
  line wins over the environment, and a non-empty environment variable over the default.
\<close>

lemma flag_overrides_environment:
  "args ''host'' = Some v \<Longrightarrow> v \<noteq> [] \<Longrightarrow> finalHost (main_config args env) = v"
  "args ''username'' = Some v \<Longrightarrow> v \<noteq> [] \<Longrightarrow> finalUsername (main_config args env) = v"
  "args ''password'' = Some v \<Longrightarrow> v \<noteq> [] \<Longrightarrow> finalPassword (main_config args env) = v"
  by (simp_all add: main_config_def flag_String_def Let_def)

lemma environment_overrides_default:
  "args ''host'' = None \<Longrightarrow> env ''IPMI_HOST'' = Some v \<Longrightarrow> v \<noteq> [] \<Longrightarrow>
     finalHost (main_config args env) = v"
  "args ''username'' = None \<Longrightarrow> env ''IPMI_USERNAME'' = Some v \<Longrightarrow> v \<noteq> [] \<Longrightarrow>
     finalUsername (main_config args env) = v"
  "args ''password'' = None \<Longrightarrow> env ''IPMI_PASSWORD'' = Some v \<Longrightarrow> v \<noteq> [] \<Longrightarrow>
     finalPassword (main_config args env) = v"
  by (simp_all add: main_config_def flag_String_def getEnvOrDefault_def Getenv_def Let_def)

section \<open>The claims\<close>

text \<open>
  C1. Whenever the client is built, the session is established and the status query
  reports the power as on, \<open>sendIPMIPowerOn\<close> returns nil, prints that the server is
  already on and that no action was taken, and makes exactly the calls \<open>Connect\<close>,
  \<open>GetChassisStatus\<close>, \<open>Close\<close>: no power-on command is sent, and the controller
  is left in the state the status query produced, closed.
\<close>

theorem C1_already_on_is_a_no_op:
  assumes "NewClient host port username password = Inr client"
    and "Connect client s = (None, s1)"
    and "GetChassisStatus client s1 = (Inr True, s2)"
  shows "sendIPMIPowerOn NewClient host username password port s =
           \<lparr>ret = None, bmc = Close client s2,
            calls = [Call_Connect True, Call_GetChassisStatus, Call_Close],
            stdout = [''Connected to BMC at '' @ host,
                      ''The server is already powered ON. No action taken.'']\<rparr> \<and>
         ret (sendIPMIPowerOn NewClient host username password port s) = None \<and>
         stdout (sendIPMIPowerOn NewClient host username password port s) =
           [''Connected to BMC at '' @ host,
            ''The server is already powered ON. No action taken.''] \<and>
         calls (sendIPMIPowerOn NewClient host username password port s) =
           [Call_Connect True, Call_GetChassisStatus, Call_Close] \<and>
         bmc (sendIPMIPowerOn NewClient host username password port s) = Close client s2 \<and>
         power_on_commands (calls (sendIPMIPowerOn NewClient host username password port s)) = 0"
  using assms
  by (simp add: sendIPMIPowerOn_def sendIPMIPowerOn_session_def defer_Close_def
      power_on_commands_def)

theorem C1_already_on_is_a_no_op_witness:
  "sim_NewClient ''192.168.0.1'' 623 ''admin'' ''admin'' = Inr sim_client \<and>
   Connect sim_client (sim_bmc True True True) = (None, sim_bmc True True True\<lparr>in_session := True\<rparr>) \<and>
   GetChassisStatus sim_client (sim_bmc True True True\<lparr>in_session := True\<rparr>) =
     (Inr True, sim_bmc True True True\<lparr>in_session := True\<rparr>) \<and>
   ret (sendIPMIPowerOn sim_NewClient ''192.168.0.1'' ''admin'' ''admin'' 623
          (sim_bmc True True True)) = None \<and>
   bmc (sendIPMIPowerOn sim_NewClient ''192.168.0.1'' ''admin'' ''admin'' 623
          (sim_bmc True True True)) = sim_bmc True True True \<and>
   power_on_commands (calls (sendIPMIPowerOn sim_NewClient ''192.168.0.1'' ''admin'' ''admin'' 623
          (sim_bmc True True True))) = 0"
proof -
  have h1: "sim_NewClient ''192.168.0.1'' 623 ''admin'' ''admin'' = Inr sim_client"
    by (simp add: sim_NewClient_def)
  have h2: "Connect sim_client (sim_bmc True True True) =
              (None, sim_bmc True True True\<lparr>in_session := True\<rparr>)"
    by (simp add: sim_client_def sim_bmc_def)
  have h3: "GetChassisStatus sim_client (sim_bmc True True True\<lparr>in_session := True\<rparr>) =
              (Inr True, sim_bmc True True True\<lparr>in_session := True\<rparr>)"
    by (simp add: sim_client_def sim_bmc_def)
  have c: "Close sim_client (sim_bmc True True True\<lparr>in_session := True\<rparr>) = sim_bmc True True True"
    by (simp add: sim_client_def sim_bmc_def)
  from C1_already_on_is_a_no_op
         [where NewClient = sim_NewClient and host = "''192.168.0.1''" and port = 623
            and username = "''admin''" and password = "''admin''" and client = sim_client
            and s = "sim_bmc True True True", OF h1 h2 h3]
       h1 h2 h3 c
  show ?thesis by metis
qed

text \<open>
  C2. In every call at most one power-on command is sent. When one is sent, the client
  was built, the session was established, the status query that came before it reported
  the power as off, and the controller is left in the state that one command produced,
  closed. When none is sent, the controller is left as it was, or as the failed
  \<open>Connect\<close> left it, or in the state the status query produced, closed. Whenever the
  client is built, the session is established and the query reports the power as off,
  exactly one power-on command is sent and it reaches the controller; the call returns
  nil and prints the success line when the command succeeds, and returns the error
  \<open>failed to send Power Up command\<close> when it fails.
\<close>

theorem C2_off_sends_one_power_on:
  "power_on_commands (calls (sendIPMIPowerOn NewClient host username password port s)) \<le> 1 \<and>
   (power_on_commands (calls (sendIPMIPowerOn NewClient host username password port s)) = 1 \<longrightarrow>
      (\<exists>client s1 s2 res s3.
         NewClient host port username password = Inr client \<and>
         Connect client s = (None, s1) \<and>
         GetChassisStatus client s1 = (Inr False, s2) \<and>
         ChassisControl client ChassisControlPowerUp s2 = (res, s3) \<and>
         calls (sendIPMIPowerOn NewClient host username password port s) =
           [Call_Connect True, Call_GetChassisStatus,
            Call_ChassisControl ChassisControlPowerUp, Call_Close] \<and>
         bmc (sendIPMIPowerOn NewClient host username password port s) = Close client s3)) \<and>
   (power_on_commands (calls (sendIPMIPowerOn NewClient host username password port s)) = 0 \<longrightarrow>
      (\<exists>err. NewClient host port username password = Inl err \<and>
             bmc (sendIPMIPowerOn NewClient host username password port s) = s) \<or>
      (\<exists>client err s1.
         NewClient host port username password = Inr client \<and>
         Connect client s = (Some err, s1) \<and>
         bmc (sendIPMIPowerOn NewClient host username password port s) = s1) \<or>
      (\<exists>client s1 r s2.
         NewClient host port username password = Inr client \<and>
         Connect client s = (None, s1) \<and>
         GetChassisStatus client s1 = (r, s2) \<and> r \<noteq> Inr False \<and>
         bmc (sendIPMIPowerOn NewClient host username password port s) = Close client s2)) \<and>
   (\<forall>client s1 s2 res s3.
      NewClient host port username password = Inr client \<and>
      Connect client s = (None, s1) \<and>
      GetChassisStatus client s1 = (Inr False, s2) \<and>
      ChassisControl client ChassisControlPowerUp s2 = (res, s3) \<longrightarrow>
        sendIPMIPowerOn NewClient host username password port s =
          \<lparr>ret = (case res of
                   None \<Rightarrow> None
                 | Some err \<Rightarrow> Some (Errorf (''failed to send Power Up command: '' @ err))),
           bmc = Close client s3,
           calls = [Call_Connect True, Call_GetChassisStatus,
                    Call_ChassisControl ChassisControlPowerUp, Call_Close],
           stdout = [''Connected to BMC at '' @ host,
                     ''Server is currently OFF. Sending Power Up command...''] @
                    (case res of None \<Rightarrow> [''Success: Power On command sent.''] | Some err \<Rightarrow> [])\<rparr> \<and>
        power_on_commands (calls (sendIPMIPowerOn NewClient host username password port s)) = 1 \<and>
        ret (sendIPMIPowerOn NewClient host username password port s) =
          (case res of
             None \<Rightarrow> None
           | Some err \<Rightarrow> Some (Errorf (''failed to send Power Up command: '' @ err))) \<and>
        bmc (sendIPMIPowerOn NewClient host username password port s) = Close client s3 \<and>
        stdout (sendIPMIPowerOn NewClient host username password port s) =
          [''Connected to BMC at '' @ host,
           ''Server is currently OFF. Sending Power Up command...''] @
          (case res of None \<Rightarrow> [''Success: Power On command sent.''] | Some err \<Rightarrow> []))"
proof (intro conjI)
  let ?R = "sendIPMIPowerOn NewClient host username password port s"
  show "power_on_commands (calls ?R) \<le> 1"
    by (auto simp: sendIPMIPowerOn_def sendIPMIPowerOn_session_def defer_Close_def
        power_on_commands_def Let_def
        split: sum.splits prod.splits option.splits bool.splits)
  show "power_on_commands (calls ?R) = 1 \<longrightarrow>
      (\<exists>client s1 s2 res s3.
         NewClient host port username password = Inr client \<and>
         Connect client s = (None, s1) \<and>
         GetChassisStatus client s1 = (Inr False, s2) \<and>
         ChassisControl client ChassisControlPowerUp s2 = (res, s3) \<and>
         calls ?R =
           [Call_Connect True, Call_GetChassisStatus,
            Call_ChassisControl ChassisControlPowerUp, Call_Close] \<and>
         bmc ?R = Close client s3)"
    by (auto simp: sendIPMIPowerOn_def sendIPMIPowerOn_session_def defer_Close_def
        power_on_commands_def Let_def
        split: sum.splits prod.splits option.splits bool.splits)
  show "power_on_commands (calls ?R) = 0 \<longrightarrow>
      (\<exists>err. NewClient host port username password = Inl err \<and> bmc ?R = s) \<or>
      (\<exists>client err s1.
         NewClient host port username password = Inr client \<and>
         Connect client s = (Some err, s1) \<and> bmc ?R = s1) \<or>
      (\<exists>client s1 r s2.
         NewClient host port username password = Inr client \<and>
         Connect client s = (None, s1) \<and>
         GetChassisStatus client s1 = (r, s2) \<and> r \<noteq> Inr False \<and>
         bmc ?R = Close client s2)"
    by (auto simp: sendIPMIPowerOn_def sendIPMIPowerOn_session_def defer_Close_def
        power_on_commands_def Let_def
        split: sum.splits prod.splits option.splits bool.splits)
  show "\<forall>client s1 s2 res s3.
      NewClient host port username password = Inr client \<and>
      Connect client s = (None, s1) \<and>
      GetChassisStatus client s1 = (Inr False, s2) \<and>
      ChassisControl client ChassisControlPowerUp s2 = (res, s3) \<longrightarrow>
        ?R =
          \<lparr>ret = (case res of
                   None \<Rightarrow> None
                 | Some err \<Rightarrow> Some (Errorf (''failed to send Power Up command: '' @ err))),
           bmc = Close client s3,
           calls = [Call_Connect True, Call_GetChassisStatus,
                    Call_ChassisControl ChassisControlPowerUp, Call_Close],
           stdout = [''Connected to BMC at '' @ host,
                     ''Server is currently OFF. Sending Power Up command...''] @
                    (case res of None \<Rightarrow> [''Success: Power On command sent.''] | Some err \<Rightarrow> [])\<rparr> \<and>
        power_on_commands (calls ?R) = 1 \<and>
        ret ?R =
          (case res of
             None \<Rightarrow> None
           | Some err \<Rightarrow> Some (Errorf (''failed to send Power Up command: '' @ err))) \<and>
        bmc ?R = Close client s3 \<and>
        stdout ?R =
          [''Connected to BMC at '' @ host,
           ''Server is currently OFF. Sending Power Up command...''] @
          (case res of None \<Rightarrow> [''Success: Power On command sent.''] | Some err \<Rightarrow> [])"
    by (auto simp: sendIPMIPowerOn_def sendIPMIPowerOn_session_def defer_Close_def
        power_on_commands_def Let_def
        split: sum.splits prod.splits option.splits bool.splits)
qed

theorem C2_off_sends_one_power_on_witness:
  "power_on_commands (calls (sendIPMIPowerOn sim_NewClient ''192.168.0.1'' ''admin'' ''admin'' 623
          (sim_bmc True True False))) = 1 \<and>
   ret (sendIPMIPowerOn sim_NewClient ''192.168.0.1'' ''admin'' ''admin'' 623
          (sim_bmc True True False)) = None \<and>
   bmc (sendIPMIPowerOn sim_NewClient ''192.168.0.1'' ''admin'' ''admin'' 623
          (sim_bmc True True False)) = sim_bmc True True True \<and>
   power_on_commands (calls (sendIPMIPowerOn sim_NewClient ''192.168.0.1'' ''admin'' ''admin'' 623
          (sim_bmc True False False))) = 1 \<and>
   ret (sendIPMIPowerOn sim_NewClient ''192.168.0.1'' ''admin'' ''admin'' 623
          (sim_bmc True False False)) =
     Some (Errorf ''failed to send Power Up command: command rejected'') \<and>
   bmc (sendIPMIPowerOn sim_NewClient ''192.168.0.1'' ''admin'' ''admin'' 623
          (sim_bmc True False False)) = sim_bmc True False False"
proof -
  have h1: "sim_NewClient ''192.168.0.1'' 623 ''admin'' ''admin'' = Inr sim_client"
    by (simp add: sim_NewClient_def)
  have h2: "Connect sim_client (sim_bmc True a False) =
              (None, sim_bmc True a False\<lparr>in_session := True\<rparr>)" for a
    by (simp add: sim_client_def sim_bmc_def)
  have h3: "GetChassisStatus sim_client (sim_bmc True a False\<lparr>in_session := True\<rparr>) =
              (Inr False, sim_bmc True a False\<lparr>in_session := True\<rparr>)" for a
    by (simp add: sim_client_def sim_bmc_def)
  have ok: "ChassisControl sim_client ChassisControlPowerUp
              (sim_bmc True True False\<lparr>in_session := True\<rparr>) =
              (None, sim_bmc True True False\<lparr>in_session := True, powered := True\<rparr>)"
    by (simp add: sim_client_def sim_bmc_def)
  have ko: "ChassisControl sim_client ChassisControlPowerUp
              (sim_bmc True False False\<lparr>in_session := True\<rparr>) =
              (Some ''command rejected'', sim_bmc True False False\<lparr>in_session := True\<rparr>)"
    by (simp add: sim_client_def sim_bmc_def)
  have c1: "Close sim_client (sim_bmc True True False\<lparr>in_session := True, powered := True\<rparr>) =
              sim_bmc True True True"
    by (simp add: sim_client_def sim_bmc_def)
  have c2: "Close sim_client (sim_bmc True False False\<lparr>in_session := True\<rparr>) =
              sim_bmc True False False"
    by (simp add: sim_client_def sim_bmc_def)
  from C2_off_sends_one_power_on
         [of sim_NewClient "''192.168.0.1''" "''admin''" "''admin''" 623 "sim_bmc True True False"]
       h1 h2 [of True] h3 [of True] ok
  have a: "power_on_commands (calls (sendIPMIPowerOn sim_NewClient ''192.168.0.1'' ''admin''
              ''admin'' 623 (sim_bmc True True False))) = 1 \<and>
           ret (sendIPMIPowerOn sim_NewClient ''192.168.0.1'' ''admin'' ''admin'' 623
              (sim_bmc True True False)) = None \<and>
           bmc (sendIPMIPowerOn sim_NewClient ''192.168.0.1'' ''admin'' ''admin'' 623
              (sim_bmc True True False)) =
             Close sim_client (sim_bmc True True False\<lparr>in_session := True, powered := True\<rparr>)"
    by fastforce
  from C2_off_sends_one_power_on
         [of sim_NewClient "''192.168.0.1''" "''admin''" "''admin''" 623 "sim_bmc True False False"]
       h1 h2 [of False] h3 [of False] ko
  have b: "power_on_commands (calls (sendIPMIPowerOn sim_NewClient ''192.168.0.1'' ''admin''
              ''admin'' 623 (sim_bmc True False False))) = 1 \<and>
           ret (sendIPMIPowerOn sim_NewClient ''192.168.0.1'' ''admin'' ''admin'' 623
              (sim_bmc True False False)) =
             Some (Errorf ''failed to send Power Up command: command rejected'') \<and>
           bmc (sendIPMIPowerOn sim_NewClient ''192.168.0.1'' ''admin'' ''admin'' 623
              (sim_bmc True False False)) =
             Close sim_client (sim_bmc True False False\<lparr>in_session := True\<rparr>)"
    by fastforce
  from a b show ?thesis by (simp add: c1 c2)
qed

text \<open>
  C3. Whenever the client is built and the session cannot be established,
  \<open>sendIPMIPowerOn\<close> returns the error \<open>failed to establish session\<close> after a single
  \<open>Connect\<close>: it does not query the status, sends no command, does not connect again,
  and prints nothing.
\<close>

theorem C3_session_failure_stops_the_call:
  assumes "NewClient host port username password = Inr client"
    and "Connect client s = (Some err, s1)"
  shows "sendIPMIPowerOn NewClient host username password port s =
           \<lparr>ret = Some (Errorf (''failed to establish session: '' @ err)), bmc = s1,
            calls = [Call_Connect False], stdout = []\<rparr>"
  using assms by (simp add: sendIPMIPowerOn_def)

theorem C3_session_failure_stops_the_call_witness:
  "sim_NewClient ''192.168.0.1'' 623 ''admin'' ''admin'' = Inr sim_client \<and>
   Connect sim_client (sim_bmc False True False) = (Some ''i/o timeout'', sim_bmc False True False) \<and>
   sendIPMIPowerOn sim_NewClient ''192.168.0.1'' ''admin'' ''admin'' 623 (sim_bmc False True False) =
     \<lparr>ret = Some (Errorf ''failed to establish session: i/o timeout''),
      bmc = sim_bmc False True False, calls = [Call_Connect False], stdout = []\<rparr>"
proof -
  have h1: "sim_NewClient ''192.168.0.1'' 623 ''admin'' ''admin'' = Inr sim_client"
    by (simp add: sim_NewClient_def)
  have h2: "Connect sim_client (sim_bmc False True False) =
              (Some ''i/o timeout'', sim_bmc False True False)"
    by (simp add: sim_client_def sim_bmc_def)
  from C3_session_failure_stops_the_call
         [where NewClient = sim_NewClient and host = "''192.168.0.1''" and port = 623
            and username = "''admin''" and password = "''admin''" and client = sim_client
            and s = "sim_bmc False True False", OF h1 h2]
       h1 h2
  show ?thesis by simp
qed

text \<open>
  C4. For every 6-byte address \<open>m\<close>, the 102-byte datagram of six bytes \<open>0xFF\<close>
  followed by sixteen copies of \<open>m\<close> is accepted by \<open>isValidWOLPacket\<close> for the
  target \<open>m\<close>, and rejected for every other 6-byte target.
\<close>

theorem C4_magic_packet_valid_only_for_its_target:
  assumes "length m = 6"
  shows "length (magic_packet m) = 102 \<and>
         isValidWOLPacket (magic_packet m) m = Inr True \<and>
         (\<forall>m'. length m' = 6 \<and> m' \<noteq> m \<longrightarrow> isValidWOLPacket (magic_packet m) m' = Inr False)"
proof (intro conjI allI impI)
  show "length (magic_packet m) = 102"
    using assms by (rule length_magic_packet)
next
  show "isValidWOLPacket (magic_packet m) m = Inr True"
    using assms by (simp add: isValidWOLPacket_magic)
next
  fix m' assume h: "length m' = 6 \<and> m' \<noteq> m"
  then have "magic_packet m \<noteq> magic_packet m'"
    using magic_packet_inj [OF assms, of m'] by auto
  with h show "isValidWOLPacket (magic_packet m) m' = Inr False"
    by (simp add: isValidWOLPacket_magic)
qed

theorem C4_magic_packet_valid_only_for_its_target_witness:
  "length [0x00, 0x11, 0x22, 0x33, 0x44, 0x55 :: byte] = 6 \<and>
   isValidWOLPacket (magic_packet [0x00, 0x11, 0x22, 0x33, 0x44, 0x55])
     [0x00, 0x11, 0x22, 0x33, 0x44, 0x55] = Inr True \<and>
   isValidWOLPacket (magic_packet [0x00, 0x11, 0x22, 0x33, 0x44, 0x55])
     [0x00, 0x11, 0x22, 0x33, 0x44, 0x56] = Inr False"
  using C4_magic_packet_valid_only_for_its_target [of "[0x00, 0x11, 0x22, 0x33, 0x44, 0x55]"]
  by simp



text \<open>
  C6. Take a 102-byte datagram that \<open>isValidWOLPacket\<close> accepts for a 6-byte target, and
  replace the byte at any position below 102 by a different byte: the result is rejected
  for that target.
\<close>

theorem C6_single_byte_mutation_invalidates:
  assumes "length m = 6" and "length data = 102"
    and "isValidWOLPacket data m = Inr True"
    and "i < 102" and "b \<noteq> data ! i"
  shows "isValidWOLPacket (data[i := b]) m = Inr False"
proof -
  from assms have "data = magic_packet (take 6 m)" by (simp add: isValidWOLPacket_magic)
  moreover have "data[i := b] \<noteq> data"
    using assms by (metis nth_list_update_eq)
  ultimately show ?thesis using assms(1) by (simp add: isValidWOLPacket_magic)
qed

theorem C6_single_byte_mutation_invalidates_witness:
  "length [0x00, 0x11, 0x22, 0x33, 0x44, 0x55 :: byte] = 6 \<and>
   length (magic_packet [0x00, 0x11, 0x22, 0x33, 0x44, 0x55]) = 102 \<and>
   isValidWOLPacket (magic_packet [0x00, 0x11, 0x22, 0x33, 0x44, 0x55])
     [0x00, 0x11, 0x22, 0x33, 0x44, 0x55] = Inr True \<and>
   (101 :: nat) < 102 \<and>
   (0x54 :: byte) \<noteq> magic_packet [0x00, 0x11, 0x22, 0x33, 0x44, 0x55] ! 101 \<and>
   isValidWOLPacket ((magic_packet [0x00, 0x11, 0x22, 0x33, 0x44, 0x55])[101 := 0x54])
     [0x00, 0x11, 0x22, 0x33, 0x44, 0x55] = Inr False"
proof -
  let ?m = "[0x00, 0x11, 0x22, 0x33, 0x44, 0x55 :: byte]"
  have m: "length ?m = 6" by simp
  have l: "length (magic_packet ?m) = 102" by (rule length_magic_packet [OF m])
  have v: "isValidWOLPacket (magic_packet ?m) ?m = Inr True"
    by (simp add: isValidWOLPacket_magic)
  have i: "(101 :: nat) < 102" by simp
  have "magic_packet ?m ! (6 + 15 * 6 + 5) = ?m ! 5"
    by (rule magic_packet_rep) simp_all
  then have b: "(0x54 :: byte) \<noteq> magic_packet ?m ! 101" by simp
  from C6_single_byte_mutation_invalidates [OF m l v i b] m l v i b show ?thesis by blast
qed

text \<open>
  The eight octets \<open>00:11:22:33:44:55:66:77\<close> have separators, so the library's answer
  to other text plays no part: they are returned as an address of 8 bytes.
\<close>

lemma parseMAC_eight_octets:
  "parseMAC unseparated ''00:11:22:33:44:55:66:77'' =
     Inr (Inr [0x00, 0x11, 0x22, 0x33, 0x44, 0x55, 0x66, 0x77])"
  by (simp add: parseMAC_def ReplaceAll_def ParseMAC_def has_separator_def ParseMAC_separated_def
      index_def slice_def xtoi2_def xtoi_def big_def colon_loop.simps xtoi_loop.simps)
     (simp add: numeral_eq_Suc)

lemma parseMAC_six_octets:
  "parseMAC unseparated ''00:11:22:33:44:55'' = Inr (Inr [0x00, 0x11, 0x22, 0x33, 0x44, 0x55])"
  "parseMAC unseparated ''00-11-22-33-44-55'' = Inr (Inr [0x00, 0x11, 0x22, 0x33, 0x44, 0x55])"
  by (simp_all add: parseMAC_def ReplaceAll_def ParseMAC_def has_separator_def
      ParseMAC_separated_def index_def slice_def xtoi2_def xtoi_def big_def colon_loop.simps
      xtoi_loop.simps)
     (simp_all add: numeral_eq_Suc)

text \<open>
  C7, as the specification states it: \<open>parseMAC\<close> never succeeds with an address that is
  not 6 bytes long. It does: the eight octets \<open>00:11:22:33:44:55:66:77\<close> are returned
  as an 8-byte address.
\<close>

theorem C7_eight_octets_are_accepted:
  "parseMAC reject_unseparated ''00:11:22:33:44:55:66:77'' =
     Inr (Inr [0x00, 0x11, 0x22, 0x33, 0x44, 0x55, 0x66, 0x77]) \<and>
   length [0x00, 0x11, 0x22, 0x33, 0x44, 0x55, 0x66, 0x77 :: byte] \<noteq> 6"
  by (simp add: parseMAC_eight_octets)

text \<open>
  C7, amended. Let the library return only addresses of 6, 8 or 20 bytes for text without
  a separator (for text with one, that is what its code does). Then for every input text
  \<open>parseMAC\<close> returns without a panic, and it either fails with an error or returns an
  address of exactly 6, 8 or 20 bytes. Whatever the library does elsewhere, every text of
  two or more octets separated by \<open>:\<close> or \<open>-\<close> whose number of octets is not 6, 8
  or 20 fails, and so does \<open>00:11:22\<close>.
\<close>

theorem C7_parseMAC_fails_or_returns_6_8_or_20_bytes:
  assumes "\<And>t a. unseparated t = Inr a \<Longrightarrow> length a = 6 \<or> length a = 8 \<or> length a = 20"
  shows
    "((\<exists>err. parseMAC unseparated macStr = Inr (Inl err)) \<or>
      (\<exists>hw. parseMAC unseparated macStr = Inr (Inr hw) \<and>
            (length hw = 6 \<or> length hw = 8 \<or> length hw = 20))) \<and>
     (\<forall>k str. separated_octets k str \<and> 2 \<le> k \<and> k \<noteq> 6 \<and> k \<noteq> 8 \<and> k \<noteq> 20 \<longrightarrow>
        parseMAC unseparated str =
          Inr (Inl (AddrError ''invalid MAC address'' (ReplaceAll str (CHR ''-'') (CHR '':''))))) \<and>
     parseMAC unseparated ''00:11:22'' = Inr (Inl (AddrError ''invalid MAC address'' ''00:11:22''))"
proof (intro conjI allI impI)
  from assms
  have contract:
    "\<forall>t a. unseparated t = Inr a \<longrightarrow> length a = 6 \<or> length a = 8 \<or> length a = 20"
    by blast
  define s where "s = ReplaceAll macStr (CHR ''-'') (CHR '':'')"
  obtain r where r: "ParseMAC unseparated s = Inr r" using ParseMAC_returns by blast
  show "(\<exists>err. parseMAC unseparated macStr = Inr (Inl err)) \<or>
        (\<exists>hw. parseMAC unseparated macStr = Inr (Inr hw) \<and>
              (length hw = 6 \<or> length hw = 8 \<or> length hw = 20))"
  proof (cases r)
    case (Inl err)
    with r show ?thesis by (simp add: parseMAC_def s_def)
  next
    case (Inr hw)
    with r have "ParseMAC unseparated s = Inr (Inr hw)" by simp
    from ParseMAC_length [OF contract this] r Inr
    show ?thesis by (simp add: parseMAC_def s_def)
  qed
next
  fix k str
  assume h: "separated_octets k str \<and> 2 \<le> k \<and> k \<noteq> 6 \<and> k \<noteq> 8 \<and> k \<noteq> 20"
  then have so: "separated_octets k str" and k: "2 \<le> k" by simp_all
  have "ParseMAC unseparated (ReplaceAll str (CHR ''-'') (CHR '':'')) =
          Inr (Inl (invalid_MAC (ReplaceAll str (CHR ''-'') (CHR '':''))))"
    using h
    by (intro ParseMAC_separated_octets [where k = k] separated_octets_normalised [OF so k])
       simp_all
  then show "parseMAC unseparated str =
          Inr (Inl (AddrError ''invalid MAC address'' (ReplaceAll str (CHR ''-'') (CHR '':''))))"
    by (simp add: parseMAC_def invalid_MAC_def)
next
  show "parseMAC unseparated ''00:11:22'' =
          Inr (Inl (AddrError ''invalid MAC address'' ''00:11:22''))"
    by (simp add: parseMAC_def ReplaceAll_def ParseMAC_def has_separator_def
        ParseMAC_separated_def invalid_MAC_def)
qed

theorem C7_parseMAC_fails_or_returns_6_8_or_20_bytes_witness:
  "parseMAC reject_unseparated ''00-11-22-33-44-55'' =
     Inr (Inr [0x00, 0x11, 0x22, 0x33, 0x44, 0x55]) \<and>
   parseMAC reject_unseparated ''00:11:22:33:44:55'' =
     Inr (Inr [0x00, 0x11, 0x22, 0x33, 0x44, 0x55]) \<and>
   separated_octets 7 ''00-11-22-33-44-55-66'' \<and>
   parseMAC reject_unseparated ''00-11-22-33-44-55-66'' =
     Inr (Inl (AddrError ''invalid MAC address'' ''00:11:22:33:44:55:66'')) \<and>
   parseMAC reject_unseparated ''00:11:22'' =
     Inr (Inl (AddrError ''invalid MAC address'' ''00:11:22''))"
proof -
  have so: "separated_octets 7 ''00-11-22-33-44-55-66''"
    by (simp add: separated_octets_def upt_rec)
  have n: "ReplaceAll ''00-11-22-33-44-55-66'' (CHR ''-'') (CHR '':'') = ''00:11:22:33:44:55:66''"
    by (simp add: ReplaceAll_def)
  have seven: "parseMAC reject_unseparated ''00-11-22-33-44-55-66'' =
                 Inr (Inl (AddrError ''invalid MAC address''
                        (ReplaceAll ''00-11-22-33-44-55-66'' (CHR ''-'') (CHR '':''))))"
  proof (rule C7_parseMAC_fails_or_returns_6_8_or_20_bytes
                [where unseparated = reject_unseparated, THEN conjunct2, THEN conjunct1,
                 rule_format])
    show "length a = 6 \<or> length a = 8 \<or> length a = 20" if "reject_unseparated t = Inr a" for t a
      using that by (simp add: reject_unseparated_def)
    show "separated_octets 7 ''00-11-22-33-44-55-66'' \<and> (2 :: nat) \<le> 7 \<and>
          (7 :: nat) \<noteq> 6 \<and> (7 :: nat) \<noteq> 8 \<and> (7 :: nat) \<noteq> 20"
      using so by simp
  qed
  have three: "parseMAC reject_unseparated ''00:11:22'' =
                 Inr (Inl (AddrError ''invalid MAC address'' ''00:11:22''))"
  proof (rule C7_parseMAC_fails_or_returns_6_8_or_20_bytes
                [where unseparated = reject_unseparated, THEN conjunct2, THEN conjunct2])
    show "length a = 6 \<or> length a = 8 \<or> length a = 20" if "reject_unseparated t = Inr a" for t a
      using that by (simp add: reject_unseparated_def)
  qed
  from seven three so show ?thesis
    unfolding n by (simp add: parseMAC_six_octets)
qed

text \<open>
  C8, for the target address: with \<open>-mac aa:bb:cc:dd:ee:ff\<close> on the command line and
  \<open>WOL_MAC=11:22:33:44:55:66\<close> in the environment, \<open>main\<close> settles on the value of
  the environment, not on the one of the command line.
\<close>

theorem C8_environment_overrides_mac_flag:
  "finalMAC (main_config [''mac'' \<mapsto> ''aa:bb:cc:dd:ee:ff''] [''WOL_MAC'' \<mapsto> ''11:22:33:44:55:66''])
     = ''11:22:33:44:55:66''"
  by (simp add: main_config_def flag_String_def getEnvOrDefault_def Getenv_def)

text \<open>
  C9. No call of \<open>sendIPMIPowerOn\<close> ends with the session open. When the session has
  been established, the calls end with the one \<open>Close\<close> of the call, whether the status
  query fails, the power is already on, the command succeeds or the command fails, and the
  controller is left in the state \<open>Close\<close> produced. (When the client cannot be built
  or the session cannot be established there is no session to release.)
\<close>

theorem C9_session_released_on_every_path:
  "session_after False (calls (sendIPMIPowerOn NewClient host username password port s)) = False \<and>
   (\<forall>client s1.
      NewClient host port username password = Inr client \<and> Connect client s = (None, s1) \<longrightarrow>
        (\<exists>cs s'. calls (sendIPMIPowerOn NewClient host username password port s) =
                   Call_Connect True # cs @ [Call_Close] \<and>
                 Call_Close \<notin> set cs \<and>
                 bmc (sendIPMIPowerOn NewClient host username password port s) = Close client s'))"
  by (auto simp: sendIPMIPowerOn_def sendIPMIPowerOn_session_def defer_Close_def Let_def
      split: sum.splits prod.splits option.splits bool.splits)

theorem C9_session_released_on_every_path_witness:
  "session_after False
     (calls (sendIPMIPowerOn sim_NewClient ''192.168.0.1'' ''admin'' ''admin'' 623
        (sim_bmc True False False))) = False \<and>
   sim_NewClient ''192.168.0.1'' 623 ''admin'' ''admin'' = Inr sim_client \<and>
   Connect sim_client (sim_bmc True False False) =
     (None, sim_bmc True False False\<lparr>in_session := True\<rparr>) \<and>
   last (calls (sendIPMIPowerOn sim_NewClient ''192.168.0.1'' ''admin'' ''admin'' 623
        (sim_bmc True False False))) = Call_Close"
proof -
  have h1: "sim_NewClient ''192.168.0.1'' 623 ''admin'' ''admin'' = Inr sim_client"
    by (simp add: sim_NewClient_def)
  have h2: "Connect sim_client (sim_bmc True False False) =
              (None, sim_bmc True False False\<lparr>in_session := True\<rparr>)"
    by (simp add: sim_client_def sim_bmc_def)
  from C9_session_released_on_every_path
         [of sim_NewClient "''192.168.0.1''" "''admin''" "''admin''" 623 "sim_bmc True False False"]
       h1 h2
  have "session_after False
          (calls (sendIPMIPowerOn sim_NewClient ''192.168.0.1'' ''admin'' ''admin'' 623
             (sim_bmc True False False))) = False"
    and "\<exists>cs. calls (sendIPMIPowerOn sim_NewClient ''192.168.0.1'' ''admin'' ''admin'' 623
             (sim_bmc True False False)) = Call_Connect True # cs @ [Call_Close]"
    by blast+
  with h1 h2 show ?thesis by auto
qed

text \<open>
  C10. For every datagram and every target of at least 6 bytes, \<open>isValidWOLPacket\<close>
  returns without an index out of range; it rejects every datagram whose length is not
  102 whatever its bytes; and its answer is the answer for the first 6 bytes of the
  target, so that two targets with the same first 6 bytes are matched alike. An 8-byte or
  a 20-byte address is therefore matched by its first 6 bytes alone.
\<close>

theorem C10_in_bounds_and_first_six_bytes_only:
  assumes "6 \<le> length targetMAC"
  shows "(\<exists>r. isValidWOLPacket data targetMAC = Inr r) \<and>
         (length data \<noteq> 102 \<longrightarrow> isValidWOLPacket data targetMAC = Inr False) \<and>
         isValidWOLPacket data targetMAC = isValidWOLPacket data (take 6 targetMAC) \<and>
         (\<forall>t'. 6 \<le> length t' \<and> take 6 t' = take 6 targetMAC \<longrightarrow>
               isValidWOLPacket data t' = isValidWOLPacket data targetMAC)"
proof (intro conjI)
  show "\<exists>r. isValidWOLPacket data targetMAC = Inr r"
    using assms by (simp add: isValidWOLPacket_magic)
  show "length data \<noteq> 102 \<longrightarrow> isValidWOLPacket data targetMAC = Inr False"
    by (simp add: isValidWOLPacket_def)
  show "isValidWOLPacket data targetMAC = isValidWOLPacket data (take 6 targetMAC)"
    using assms by (simp add: isValidWOLPacket_magic)
  show "\<forall>t'. 6 \<le> length t' \<and> take 6 t' = take 6 targetMAC \<longrightarrow>
             isValidWOLPacket data t' = isValidWOLPacket data targetMAC"
    using assms by (simp add: isValidWOLPacket_magic)
qed

theorem C10_in_bounds_and_first_six_bytes_only_witness:
  "6 \<le> length [0x00, 0x11, 0x22, 0x33, 0x44, 0x55, 0x66, 0x77 :: byte] \<and>
   isValidWOLPacket (magic_packet [0x00, 0x11, 0x22, 0x33, 0x44, 0x55])
     [0x00, 0x11, 0x22, 0x33, 0x44, 0x55, 0x66, 0x77] = Inr True \<and>
   isValidWOLPacket [0xFF, 0xFF, 0xFF] [0x00, 0x11, 0x22, 0x33, 0x44, 0x55, 0x66, 0x77] = Inr False"
proof -
  let ?t = "[0x00, 0x11, 0x22, 0x33, 0x44, 0x55, 0x66, 0x77 :: byte]"
  let ?m = "[0x00, 0x11, 0x22, 0x33, 0x44, 0x55 :: byte]"
  have t: "6 \<le> length ?t" by simp
  have v: "isValidWOLPacket (magic_packet ?m) ?m = Inr True"
    by (simp add: isValidWOLPacket_magic)
  from C10_in_bounds_and_first_six_bytes_only [OF t, of "magic_packet ?m"] v
  have a: "isValidWOLPacket (magic_packet ?m) ?t = Inr True" by simp
  from C10_in_bounds_and_first_six_bytes_only [OF t, of "[0xFF, 0xFF, 0xFF]"]
  have b: "isValidWOLPacket [0xFF, 0xFF, 0xFF] ?t = Inr False" by simp
  from t a b show ?thesis by simp
qed

text \<open>
  When the library returns only addresses of 6, 8 or 20 bytes, the addresses \<open>parseMAC\<close>
  returns are among those of C10: each has at least 6 bytes and is matched by its first 6.
\<close>

lemma parseMAC_address_matched_by_first_six_bytes:
  assumes "\<And>t a. unseparated t = Inr a \<Longrightarrow> length a = 6 \<or> length a = 8 \<or> length a = 20"
    and "parseMAC unseparated macStr = Inr (Inr hw)"
  shows "isValidWOLPacket data hw = isValidWOLPacket data (take 6 hw)"
proof -
  from assms(2)
  have "ParseMAC unseparated (ReplaceAll macStr (CHR ''-'') (CHR '':'')) = Inr (Inr hw)"
    by (simp add: parseMAC_def split: sum.splits)
  moreover from assms(1)
  have "\<forall>t a. unseparated t = Inr a \<longrightarrow> length a = 6 \<or> length a = 8 \<or> length a = 20"
    by blast
  ultimately have "length hw = 6 \<or> length hw = 8 \<or> length hw = 20"
    by (rule ParseMAC_length [rotated])
  then have "6 \<le> length hw" by auto
  then show ?thesis by (simp add: isValidWOLPacket_magic)
qed

end
